theory Spec2Isabelle
  imports Main
begin

section \<open>Cells\<close>

text \<open>
  Modelled from the spec: the class \<open>Cell\<close> and the constant \<open>DEFAULT_CELL_VALUE\<close>
  (Cell.ts) are not among the sources; Sudoku.ts only calls them. The spec gives a cell a
  row index and a column index (fixed at creation), an assigned value (absent while the
  cell is unfilled), the list of its possible values and a validity flag whose default is
  true, and the operations \<open>hasValue\<close>, \<open>getValue\<close>, \<open>setValue\<close>,
  \<open>getPossibleValues\<close>, \<open>setPossibleValues\<close>, \<open>fill\<close> (assign and clear the
  candidates), \<open>isValid\<close>, \<open>setIsValid\<close>. The getters are the record's fields
  (\<open>valid\<close> for the cell's \<open>isValid\<close>, a name the board uses too). An
  unfilled cell holds \<open>DEFAULT_CELL_VALUE\<close>, which Sudoku.ts compares with \<open>getValue()\<close>;
  it is taken as 0, outside the range 1 to 9 of the assigned values. A cell's candidates
  are a list, as the arrays of the source are: \<open>getPossibleValues()[0]\<close> is its first
  entry.
\<close>

definition DEFAULT_CELL_VALUE :: int where
  "DEFAULT_CELL_VALUE = 0"

record cell =
  getRowIndex :: nat
  getColumnIndex :: nat
  getValue :: int
  getPossibleValues :: "int list"
  valid :: bool

definition newCell :: "nat \<Rightarrow> nat \<Rightarrow> cell" where
  "newCell r c =
     \<lparr>getRowIndex = r, getColumnIndex = c, getValue = DEFAULT_CELL_VALUE,
      getPossibleValues = [1, 2, 3, 4, 5, 6, 7, 8, 9], valid = True\<rparr>"

definition hasValue :: "cell \<Rightarrow> bool" where
  "hasValue c = (getValue c \<noteq> DEFAULT_CELL_VALUE)"

definition setValue :: "int \<Rightarrow> cell \<Rightarrow> cell" where
  "setValue v c = c\<lparr>getValue := v\<rparr>"

definition setPossibleValues :: "int list \<Rightarrow> cell \<Rightarrow> cell" where
  "setPossibleValues vs c = c\<lparr>getPossibleValues := vs\<rparr>"

definition fill :: "int \<Rightarrow> cell \<Rightarrow> cell" where
  "fill v c = c\<lparr>getValue := v, getPossibleValues := []\<rparr>"

definition setIsValid :: "bool \<Rightarrow> cell \<Rightarrow> cell" where
  "setIsValid b c = c\<lparr>valid := b\<rparr>"

section \<open>The store of cell objects\<close>

text \<open>
  A \<open>Cell\<close> is a mutable object and the arrays of the board hold references to cells:
  a row, a column and a square of one board share their cells, a snapshot has cells of
  its own. So the cells live in a store, a reference is an address, and \<open>new Cell\<close>
  takes the next unused address. The notifications the engine sends to the reporting
  channel are kept in a list, oldest first.
\<close>

type_synonym ref = nat

datatype message =
  FieldNotValid | SudokuSolved | SomeMistakes | CouldntSolve
  | Suggest nat nat int | RestoreField

datatype notification = Error message | Info message | Warn message

record world =
  heap :: "ref \<Rightarrow> cell"
  fresh :: ref
  notifications :: "notification list"

definition modify :: "ref \<Rightarrow> (cell \<Rightarrow> cell) \<Rightarrow> world \<Rightarrow> world" where
  "modify a f w = w\<lparr>heap := (heap w)(a := f (heap w a))\<rparr>"

definition alloc :: "cell \<Rightarrow> world \<Rightarrow> ref \<times> world" where
  "alloc c w = (fresh w, w\<lparr>heap := (heap w)(fresh w := c), fresh := Suc (fresh w)\<rparr>)"

definition notify :: "notification \<Rightarrow> world \<Rightarrow> world" where
  "notify n w = w\<lparr>notifications := notifications w @ [n]\<rparr>"

section \<open>The board and the engine\<close>

text \<open>
  \<open>ClassicSudoku\<close>: the grid of cell references, the delay, the two run flags and the
  stack of suggestions (pushed and popped at the end of the list, as the array is).
  A suggestion's snapshot is the \<open>ClassicSudoku\<close> that \<open>clone\<close> builds; the engine reads
  only its cells, and its other fields are those the constructor gives every new
  object, so a snapshot is kept as a board.
\<close>

record board =
  cells :: "ref list list"
  timeoutMs :: int

record suggestion =
  snapshot :: board
  row :: nat
  col :: nat
  number :: int

record sudoku = board +
  running :: bool
  paused :: bool
  suggestions :: "suggestion list"

definition spec_length :: nat where
  "spec_length = 9"

definition getCell :: "'a board_scheme \<Rightarrow> nat \<Rightarrow> nat \<Rightarrow> ref" where
  "getCell b rowIndex cellIndex = cells b ! rowIndex ! cellIndex"

definition getColumns :: "'a board_scheme \<Rightarrow> ref list list" where
  "getColumns b = map (\<lambda>i. map (\<lambda>rw. rw ! i) (cells b)) [0..<spec_length]"

text \<open>\<open>Array.prototype.slice\<close> with its treatment of negative and too large bounds.\<close>

definition slice :: "'a list \<Rightarrow> int \<Rightarrow> int \<Rightarrow> 'a list" where
  "slice xs start fin =
     (let n = int (length xs);
          k = (if start < 0 then max (n + start) 0 else min start n);
          f = (if fin < 0 then max (n + fin) 0 else min fin n)
      in take (nat (f - k)) (drop (nat k) xs))"

definition getSquareIndexes :: "nat \<Rightarrow> int \<times> int" where
  "getSquareIndexes index =
     (if index \<in> set [0, 1, 2] then (0, 2)
      else if index \<in> set [3, 4, 5] then (3, 5)
      else if index \<in> set [6, 7, 8] then (6, 8)
      else (- 1, - 1))"

definition getSquare :: "'a board_scheme \<Rightarrow> nat \<Rightarrow> nat \<Rightarrow> ref list list" where
  "getSquare b rowIndex columnIndex =
     (let rowRange = getSquareIndexes rowIndex;
          colRange = getSquareIndexes columnIndex;
          rws = slice (cells b) (fst rowRange) (snd rowRange + 1)
      in map (\<lambda>rw. slice rw (fst colRange) (snd colRange + 1)) rws)"

definition getSquares :: "'a board_scheme \<Rightarrow> ref list list" where
  "getSquares b =
     [concat (getSquare b 0 0), concat (getSquare b 0 3), concat (getSquare b 0 6),
      concat (getSquare b 3 0), concat (getSquare b 3 3), concat (getSquare b 3 6),
      concat (getSquare b 6 0), concat (getSquare b 6 3), concat (getSquare b 6 6)]"

definition solved :: "'a board_scheme \<Rightarrow> world \<Rightarrow> bool" where
  "solved b w = (length (filter (\<lambda>c. \<not> hasValue (heap w c)) (concat (cells b))) = 0)"

subsection \<open>Validation\<close>

definition isDuplicated :: "ref \<Rightarrow> ref list \<Rightarrow> world \<Rightarrow> bool" where
  "isDuplicated c cs w =
     (1 < length (filter (\<lambda>x. getValue (heap w x) = getValue (heap w c)) cs))"

definition validateCell :: "ref list \<Rightarrow> ref \<Rightarrow> world \<Rightarrow> world" where
  "validateCell rng c w =
     (if getValue (heap w c) = DEFAULT_CELL_VALUE \<or> \<not> valid (heap w c) then w
      else modify c (setIsValid (\<not> isDuplicated c rng w)) w)"

definition validateRanges :: "ref list list \<Rightarrow> world \<Rightarrow> world" where
  "validateRanges ranges w = fold (\<lambda>rng. fold (validateCell rng) rng) ranges w"

definition validate :: "'a board_scheme \<Rightarrow> world \<Rightarrow> world" where
  "validate b w =
     (let w0 = fold (\<lambda>rw. fold (\<lambda>c. modify c (setIsValid True)) rw) (cells b) w;
          rws = cells b;
          columns = getColumns b;
          squares = getSquares b
      in validateRanges squares (validateRanges columns (validateRanges rws w0)))"

definition isValid :: "'a board_scheme \<Rightarrow> world \<Rightarrow> bool" where
  "isValid b w = (length (filter (\<lambda>c. \<not> valid (heap w c)) (concat (cells b))) = 0)"

subsection \<open>Cloning\<close>

fun allocRow :: "nat \<Rightarrow> nat list \<Rightarrow> world \<Rightarrow> ref list \<times> world" where
  "allocRow rowIndex [] w = ([], w)"
| "allocRow rowIndex (columnIndex # cs) w =
     (let (c, w1) = alloc (newCell rowIndex columnIndex) w;
          (rw, w2) = allocRow rowIndex cs w1
      in (c # rw, w2))"

fun allocField :: "nat list \<Rightarrow> world \<Rightarrow> ref list list \<times> world" where
  "allocField [] w = ([], w)"
| "allocField (rowIndex # rs) w =
     (let (rw, w1) = allocRow rowIndex [0..<spec_length] w;
          (field, w2) = allocField rs w1
      in (rw # field, w2))"

definition emptyField :: "world \<Rightarrow> ref list list \<times> world" where
  "emptyField w = allocField [0..<spec_length] w"

definition copyCell :: "ref list list \<Rightarrow> nat \<Rightarrow> nat \<times> ref \<Rightarrow> world \<Rightarrow> world" where
  "copyCell field rowIndex ic w =
     (let cellClone = field ! rowIndex ! fst ic;
          w1 = modify cellClone (setValue (getValue (heap w (snd ic)))) w
      in modify cellClone (setPossibleValues (getPossibleValues (heap w1 (snd ic)))) w1)"

definition clone :: "'a board_scheme \<Rightarrow> world \<Rightarrow> board \<times> world" where
  "clone b w =
     (let (field, w1) = emptyField w;
          w2 = fold (\<lambda>ir. fold (copyCell field (fst ir)) (enumerate 0 (snd ir)))
                 (enumerate 0 (cells b)) w1
      in (\<lparr>cells = field, timeoutMs = timeoutMs b\<rparr>, w2))"

subsection \<open>Propagation into a group\<close>

text \<open>
  \<open>removeFromPossibleValues\<close>: the cells of the group that are unfilled at the call
  are visited in order; \<open>eliminate\<close> is the body of the loop. The callback
  \<open>onCellUpdated\<close> and \<open>sleep\<close> are the caller's and the timer's: they do not touch
  the board and are left out.
\<close>

definition eliminate :: "int \<Rightarrow> ref \<Rightarrow> world \<Rightarrow> world" where
  "eliminate v c w =
     (let possibleValues = getPossibleValues (heap w c)
      in if v \<in> set possibleValues
         then (let filtered = filter (\<lambda>x. x \<noteq> v) possibleValues
               in if length filtered = 1 then modify c (fill (filtered ! 0)) w
                  else modify c (setPossibleValues filtered) w)
         else w)"

definition removeFromPossibleValues :: "int \<Rightarrow> ref list \<Rightarrow> world \<Rightarrow> world" where
  "removeFromPossibleValues v rng w =
     (let cellsToCheck = filter (\<lambda>c. \<not> hasValue (heap w c)) rng
      in fold (eliminate v) cellsToCheck w)"

subsection \<open>Strategies\<close>

text \<open>
  Modelled from the spec: the strategy classes (\<open>ByKnownCellsStrategy\<close>,
  \<open>BySinglePossibleValueStrategy\<close>, \<open>ByValuesRangeStrategy\<close>,
  \<open>BySquareIntersectionStrategy\<close>) are not among the sources. By the spec's contract
  \<open>solve(cell, row, column, box)\<close> reads the target cell and its three groups, has no
  effect beyond the target cell and returns whether it changed the cell. A strategy is
  therefore a parameter of the engine: a function from the cell and the contents of the
  three groups to the flag and the new cell.
\<close>

type_synonym strategy = "cell \<Rightarrow> cell list \<Rightarrow> cell list \<Rightarrow> cell list \<Rightarrow> bool \<times> cell"

definition applyStrategy ::
  "strategy \<Rightarrow> ref \<Rightarrow> ref list \<Rightarrow> ref list \<Rightarrow> ref list \<Rightarrow> world \<Rightarrow> bool \<times> world" where
  "applyStrategy strat c rw column square w =
     (let r = strat (heap w c) (map (heap w) rw) (map (heap w) column) (map (heap w) square)
      in (fst r, w\<lparr>heap := (heap w)(c := snd r)\<rparr>))"

text \<open>\<open>strategies.map(...)\<close>: every strategy runs, in order, on the cell as the one before left it.\<close>

fun mapStrategies ::
  "strategy list \<Rightarrow> ref \<Rightarrow> ref list \<Rightarrow> ref list \<Rightarrow> ref list \<Rightarrow> world \<Rightarrow> bool list \<times> world" where
  "mapStrategies [] c rw column square w = ([], w)"
| "mapStrategies (strat # strats) c rw column square w =
     (let (u, w1) = applyStrategy strat c rw column square w;
          (us, w2) = mapStrategies strats c rw column square w1
      in (u # us, w2))"

subsection \<open>One pass over the cells\<close>

text \<open>
  The body of the inner loop of \<open>solveAsPossible\<close> after the checks of the run flags.
  The three calls of \<open>removeFromPossibleValues\<close> are taken one after the other, each to
  its end. (The source starts them without awaiting them; how their later steps interleave
  with the rest of the loop is decided by the timer queue and is not part of this model.)
\<close>

definition cellBody ::
  "strategy list \<Rightarrow> sudoku \<Rightarrow> ref list list \<Rightarrow> nat \<Rightarrow> nat \<Rightarrow> bool \<times> world \<Rightarrow> bool \<times> world" where
  "cellBody strategies s columns rowIndex columnIndex hw =
     (let hasChanges = fst hw; w = snd hw;
          c = cells s ! rowIndex ! columnIndex
      in if hasValue (heap w c) then hw
         else
           (let single = (length (getPossibleValues (heap w c)) = 1);
                w1 = (if single then modify c (fill (getPossibleValues (heap w c) ! 0)) w else w);
                hasChanges1 = (if single then True else hasChanges);
                rw = cells s ! rowIndex;
                column = columns ! columnIndex;
                square = concat (getSquare s rowIndex columnIndex);
                r = mapStrategies strategies c rw column square w1;
                cellUpdated = list_ex (\<lambda>u. u) (fst r);
                w2 = snd r;
                w5 = (if hasValue (heap w2 c)
                      then (let w3 = removeFromPossibleValues (getValue (heap w2 c)) rw w2;
                                w4 = removeFromPossibleValues (getValue (heap w3 c)) column w3
                            in removeFromPossibleValues (getValue (heap w4 c)) square w4)
                      else w2)
            in (hasChanges1 \<or> cellUpdated, w5)))"

text \<open>
  The two loops. While the engine is paused and running the source polls, a second at a
  time, until another task calls \<open>continue\<close> or \<open>stop\<close>; no other task runs in this
  model, so there the pass does not return (\<open>None\<close>). When the engine is not running the
  \<open>break\<close> leaves the inner loop only.
\<close>

fun forColumns ::
  "strategy list \<Rightarrow> sudoku \<Rightarrow> ref list list \<Rightarrow> nat \<Rightarrow> nat list \<Rightarrow> bool \<times> world
     \<Rightarrow> (bool \<times> world) option" where
  "forColumns strategies s columns rowIndex [] hw = Some hw"
| "forColumns strategies s columns rowIndex (columnIndex # cs) hw =
     (if paused s \<and> running s then None
      else if \<not> running s then Some hw
      else forColumns strategies s columns rowIndex cs
             (cellBody strategies s columns rowIndex columnIndex hw))"

fun forRows ::
  "strategy list \<Rightarrow> sudoku \<Rightarrow> ref list list \<Rightarrow> nat list \<Rightarrow> bool \<times> world
     \<Rightarrow> (bool \<times> world) option" where
  "forRows strategies s columns [] hw = Some hw"
| "forRows strategies s columns (rowIndex # rs) hw =
     (case forColumns strategies s columns rowIndex [0..<spec_length] hw of
        None \<Rightarrow> None
      | Some hw1 \<Rightarrow> forRows strategies s columns rs hw1)"

subsection \<open>The pass of the intersection strategy\<close>

definition intersectionBody ::
  "strategy \<Rightarrow> sudoku \<Rightarrow> ref list list \<Rightarrow> nat \<Rightarrow> nat \<Rightarrow> bool \<times> world \<Rightarrow> bool \<times> world" where
  "intersectionBody strat s columns rowIndex columnIndex hw =
     (let hasChanges = fst hw; w = snd hw;
          c = cells s ! rowIndex ! columnIndex
      in if hasValue (heap w c) then hw
         else
           (let rw = cells s ! rowIndex;
                column = columns ! columnIndex;
                square = concat (getSquare s rowIndex columnIndex);
                r = applyStrategy strat c rw column square w
            in (hasChanges \<or> fst r, snd r)))"

definition intersectionPass ::
  "strategy \<Rightarrow> sudoku \<Rightarrow> ref list list \<Rightarrow> bool \<times> world \<Rightarrow> bool \<times> world" where
  "intersectionPass strat s columns hw =
     fold (\<lambda>rowIndex. fold (intersectionBody strat s columns rowIndex) [0..<spec_length])
       [0..<spec_length] hw"

subsection \<open>The guess\<close>

text \<open>
  \<open>Array.prototype.reduce\<close> without an initial value: a \<open>TypeError\<close> on the empty array
  (\<open>None\<close>), else the fold from the first element over the rest.
\<close>

definition reduce :: "('a \<Rightarrow> 'a \<Rightarrow> 'a) \<Rightarrow> 'a list \<Rightarrow> 'a option" where
  "reduce f xs = (case xs of [] \<Rightarrow> None | x # ys \<Rightarrow> Some (foldl f x ys))"

definition fewer :: "world \<Rightarrow> ref \<Rightarrow> ref \<Rightarrow> ref" where
  "fewer w a b =
     (if length (getPossibleValues (heap w a)) < length (getPossibleValues (heap w b)) then a else b)"

text \<open>
  The block of \<open>solveAsPossible\<close> that guesses. Two ways out of it are not results of the
  model: \<open>reduce\<close> throws on an empty array (the guard of the block excludes it), and on
  a cell with no candidate \<open>getPossibleValues()[0]\<close> is \<open>undefined\<close>, which the source
  hands to \<open>Cell.fill\<close>; what a cell does with it is in Cell.ts.
\<close>

datatype fault = ReduceOfEmptyArray | UndefinedSuggestion

definition guess :: "sudoku \<Rightarrow> world \<Rightarrow> fault + sudoku \<times> world" where
  "guess s w =
     (case reduce (fewer w) (filter (\<lambda>c. \<not> hasValue (heap w c)) (concat (cells s))) of
        None \<Rightarrow> Inl ReduceOfEmptyArray
      | Some suggestionCandidate \<Rightarrow>
          (case getPossibleValues (heap w suggestionCandidate) of
             [] \<Rightarrow> Inl UndefinedSuggestion
           | suggestion # _ \<Rightarrow>
               (let r = getRowIndex (heap w suggestionCandidate);
                    c = getColumnIndex (heap w suggestionCandidate);
                    w1 = notify (Info (Suggest r c suggestion)) w;
                    snap = clone s w1;
                    s1 = s\<lparr>suggestions := suggestions s @
                           [\<lparr>snapshot = fst snap, row = r, col = c, number = suggestion\<rparr>]\<rparr>;
                    w2 = modify suggestionCandidate (fill suggestion) (snd snap)
                in Inr (s1, w2))))"

subsection \<open>Rollback\<close>

definition restore :: "sudoku \<Rightarrow> world \<Rightarrow> sudoku \<times> world" where
  "restore s w =
     (if 0 < length (suggestions s)
      then (let w1 = validate s w
            in if \<not> isValid s w1
               then (let w2 = notify (Info RestoreField) w1;
                         suggestion = last (suggestions s);
                         s1 = s\<lparr>suggestions := butlast (suggestions s)\<rparr>;
                         snap = snapshot suggestion;
                         suggestedNumber = number suggestion;
                         s2 = s1\<lparr>cells := cells snap\<rparr>;
                         c = getCell s2 (row suggestion) (col suggestion);
                         possibleValues =
                           filter (\<lambda>v. v \<noteq> suggestedNumber) (getPossibleValues (heap w2 c))
                     in (s2, modify c (setPossibleValues possibleValues) w2))
               else (s, w1))
      else (s, w))"

subsection \<open>The loop and the run\<close>

text \<open>One turn of the \<open>do ... while\<close> loop: the flag \<open>hasChanges\<close> and the state it leaves.\<close>

definition iteration ::
  "strategy list \<Rightarrow> strategy \<Rightarrow> sudoku \<times> world \<Rightarrow> (fault + bool \<times> sudoku \<times> world) option" where
  "iteration strategies intersection sw =
     (let s = fst sw; w = snd sw;
          columns = getColumns s
      in case forRows strategies s columns [0..<spec_length] (False, w) of
           None \<Rightarrow> None
         | Some hw1 \<Rightarrow>
             (let hw2 = (if \<not> fst hw1 \<and> \<not> solved s (snd hw1)
                         then intersectionPass intersection s columns hw1 else hw1)
              in if \<not> fst hw2 \<and> \<not> solved s (snd hw2)
                 then (case guess s (snd hw2) of
                         Inl f \<Rightarrow> Some (Inl f)
                       | Inr sw1 \<Rightarrow> Some (Inr (True, restore (fst sw1) (snd sw1))))
                 else Some (Inr (fst hw2, restore s (snd hw2)))))"

partial_function (option) solveAsPossible ::
  "strategy list \<Rightarrow> strategy \<Rightarrow> sudoku \<times> world \<Rightarrow> (fault + sudoku \<times> world) option" where
  "solveAsPossible strategies intersection sw =
     (case iteration strategies intersection sw of
        None \<Rightarrow> None
      | Some (Inl f) \<Rightarrow> Some (Inl f)
      | Some (Inr r) \<Rightarrow>
          (if running (fst (snd r)) \<and> \<not> solved (fst (snd r)) (snd (snd r)) \<and> fst r
           then solveAsPossible strategies intersection (snd r)
           else Some (Inr (snd r))))"

text \<open>
  \<open>solve\<close>. The promise it returns is resolved at the end of the run; on an invalid
  field the executor returns before that, and the promise stays pending.
\<close>

datatype 'a promise = Pending 'a | Resolved 'a

definition solve ::
  "strategy list \<Rightarrow> strategy \<Rightarrow> sudoku \<times> world \<Rightarrow> (fault + (sudoku \<times> world) promise) option" where
  "solve strategies intersection sw =
     (let s1 = (fst sw)\<lparr>running := True\<rparr>;
          w1 = validate s1 (snd sw)
      in if \<not> isValid s1 w1
         then Some (Inr (Pending (s1, notify (Error FieldNotValid) w1)))
         else (case solveAsPossible strategies intersection (s1, w1) of
                 None \<Rightarrow> None
               | Some (Inl f) \<Rightarrow> Some (Inl f)
               | Some (Inr sw2) \<Rightarrow>
                   (let s2 = fst sw2;
                        w3 = validate s2 (snd sw2);
                        w4 = (if solved s2 w3 then notify (Info SudokuSolved) w3
                              else if \<not> isValid s2 w3 then notify (Error SomeMistakes) w3
                              else notify (Warn CouldntSolve) w3)
                    in Some (Inr (Resolved (s2\<lparr>running := False\<rparr>, w4))))))"

section \<open>Notions used in the statements and proofs\<close>

text \<open>
  Validation only ever lowers validity flags: \<open>andValid P\<close> conjoins \<open>P\<close> to every
  flag, \<open>markValid S\<close> raises the flags of the cells in \<open>S\<close>, and a cell is
  \<open>unduplicated\<close> in a group when \<open>validateRanges\<close> leaves its flag alone there. The
  \<open>groups\<close> of a board are its rows, columns and squares.
\<close>

definition unduplicated :: "world \<Rightarrow> ref list \<Rightarrow> ref \<Rightarrow> bool" where
  "unduplicated w rng c = (getValue (heap w c) = DEFAULT_CELL_VALUE \<or> \<not> isDuplicated c rng w)"

definition andValid :: "(ref \<Rightarrow> bool) \<Rightarrow> world \<Rightarrow> world" where
  "andValid P w = w\<lparr>heap := \<lambda>x. (heap w x)\<lparr>valid := valid (heap w x) \<and> P x\<rparr>\<rparr>"

definition markValid :: "ref set \<Rightarrow> world \<Rightarrow> world" where
  "markValid S w = w\<lparr>heap := \<lambda>x. if x \<in> S then (heap w x)\<lparr>valid := True\<rparr> else heap w x\<rparr>"

definition groups :: "'a board_scheme \<Rightarrow> ref list list" where
  "groups b = cells b @ getColumns b @ getSquares b"

text \<open>
  Cloning: \<open>copyTo (t, c)\<close> copies value and candidates of the cell \<open>c\<close> into the
  cell \<open>t\<close>, and \<open>pairs field css\<close> lists, in the order of the two loops of
  \<open>clone\<close>, each cell of the new field with the cell of \<open>css\<close> it is filled from.
  \<open>shape9\<close> says that a grid has nine rows of nine cells, as every grid built by
  \<open>emptyField\<close> has, and \<open>allocated\<close> that its cells exist in the store, below the
  next unused address. \<open>gridAt n\<close> is the grid of references that \<open>emptyField\<close>
  builds when \<open>n\<close> is the next unused address.
\<close>

definition copyTo :: "ref \<times> ref \<Rightarrow> world \<Rightarrow> world" where
  "copyTo tc w =
     (let w1 = modify (fst tc) (setValue (getValue (heap w (snd tc)))) w
      in modify (fst tc) (setPossibleValues (getPossibleValues (heap w1 (snd tc)))) w1)"

definition pairs :: "ref list list \<Rightarrow> ref list list \<Rightarrow> (ref \<times> ref) list" where
  "pairs field css =
     concat (map (\<lambda>ir. map (\<lambda>ic. (field ! fst ir ! fst ic, snd ic)) (enumerate 0 (snd ir)))
       (enumerate 0 css))"

definition shape9 :: "ref list list \<Rightarrow> bool" where
  "shape9 css = (length css = 9 \<and> list_all (\<lambda>rw. length rw = 9) css)"


definition gridAt :: "ref \<Rightarrow> ref list list" where
  "gridAt n = map (\<lambda>k. [n + 9 * k..<n + 9 * k + 9]) [0..<9]"


definition unfilled :: "'a board_scheme \<Rightarrow> world \<Rightarrow> ref list" where
  "unfilled b w = filter (\<lambda>c. \<not> hasValue (heap w c)) (concat (cells b))"

definition pick :: "world \<Rightarrow> ref list \<Rightarrow> ref" where
  "pick w xs = foldl (fewer w) (hd xs) (tl xs)"





section \<open>Example boards\<close>

text \<open>
  \<open>boardAt n\<close> and \<open>engineAt n sgs\<close> are a board and an engine (not running, not
  paused, with the suggestions \<open>sgs\<close>) on the grid \<open>gridAt n\<close>. \<open>worldOf vals\<close> is
  a store whose first 81 cells are those of a new board with the values \<open>vals\<close>
  entered: \<open>emptyWorld\<close> is the empty board, and in \<open>twoFives\<close> the first two cells of
  the first row both hold 5. In \<open>afterGuess\<close> the board of \<open>twoFives\<close> is the live
  board and a second grid, at address 81, holds the cells of an empty snapshot;
  \<open>guessedFive\<close> is the suggestion that goes with it.
\<close>

definition boardAt :: "ref \<Rightarrow> board" where
  "boardAt n = \<lparr>cells = gridAt n, timeoutMs = 0\<rparr>"

definition engineAt :: "ref \<Rightarrow> suggestion list \<Rightarrow> sudoku" where
  "engineAt n sgs =
     \<lparr>cells = gridAt n, timeoutMs = 0, running = False, paused = False, suggestions = sgs\<rparr>"

definition worldOf :: "(ref \<Rightarrow> int) \<Rightarrow> world" where
  "worldOf vals =
     \<lparr>heap = (\<lambda>a. setValue (vals a) (newCell (a div 9) (a mod 9))), fresh = 81,
      notifications = []\<rparr>"


definition twoFives :: world where
  "twoFives = worldOf (\<lambda>a. if a < 2 then 5 else 0)"

definition afterGuess :: world where
  "afterGuess =
     \<lparr>heap = (\<lambda>a. if a < 81 then heap twoFives a else newCell ((a - 81) div 9) ((a - 81) mod 9)),
      fresh = 162, notifications = []\<rparr>"

definition guessedFive :: suggestion where
  "guessedFive = \<lparr>snapshot = boardAt 81, row = 0, col = 1, number = 5\<rparr>"



section \<open>Properties\<close>

lemma heap_modify: "heap (modify a f w) x = (if x = a then f (heap w a) else heap w x)"
  by (simp add: modify_def)

subsection \<open>Validation\<close>

lemma andValid_andValid: "andValid P (andValid Q w) = andValid (\<lambda>x. Q x \<and> P x) w"
  by (simp add: andValid_def fun_eq_iff conj_assoc)

lemma andValid_cong:
  assumes "\<And>x. valid (heap w x) \<Longrightarrow> P x = Q x"
  shows "andValid P w = andValid Q w"
proof -
  have "(\<lambda>x. (heap w x)\<lparr>valid := valid (heap w x) \<and> P x\<rparr>) =
        (\<lambda>x. (heap w x)\<lparr>valid := valid (heap w x) \<and> Q x\<rparr>)"
  proof (rule ext)
    fix x
    show "(heap w x)\<lparr>valid := valid (heap w x) \<and> P x\<rparr> =
          (heap w x)\<lparr>valid := valid (heap w x) \<and> Q x\<rparr>"
      using assms [of x] by (cases "valid (heap w x)") simp_all
  qed
  then show ?thesis by (simp add: andValid_def)
qed

lemma getValue_andValid: "getValue (heap (andValid P w) x) = getValue (heap w x)"
  by (simp add: andValid_def)

lemma isDuplicated_andValid: "isDuplicated c rng (andValid P w) = isDuplicated c rng w"
  by (simp add: isDuplicated_def getValue_andValid)

lemma unduplicated_andValid: "unduplicated (andValid P w) rng c = unduplicated w rng c"
  by (simp add: unduplicated_def isDuplicated_andValid getValue_andValid)

lemma validateCell_andValid:
  "validateCell rng c w = andValid (\<lambda>x. x = c \<longrightarrow> unduplicated w rng c) w"
  by (auto simp add: validateCell_def andValid_def modify_def setIsValid_def unduplicated_def
      fun_eq_iff intro!: world.equality)

lemma fold_validateCell:
  "fold (validateCell rng) cs w = andValid (\<lambda>x. x \<in> set cs \<longrightarrow> unduplicated w rng x) w"
proof (induction cs arbitrary: w)
  case Nil
  show ?case by (simp add: andValid_def)
next
  case (Cons c cs)
  have "fold (validateCell rng) (c # cs) w =
      andValid (\<lambda>x. x \<in> set cs \<longrightarrow> unduplicated (validateCell rng c w) rng x)
        (validateCell rng c w)"
    by (simp add: Cons.IH)
  also have "\<dots> = andValid (\<lambda>x. (x = c \<longrightarrow> unduplicated w rng c) \<and>
      (x \<in> set cs \<longrightarrow> unduplicated w rng x)) w"
    by (simp add: validateCell_andValid andValid_andValid unduplicated_andValid)
  also have "\<dots> = andValid (\<lambda>x. x \<in> set (c # cs) \<longrightarrow> unduplicated w rng x) w"
    by (rule andValid_cong) auto
  finally show ?case .
qed

lemma validateRanges_andValid:
  "validateRanges ranges w =
     andValid (\<lambda>x. \<forall>rng\<in>set ranges. x \<in> set rng \<longrightarrow> unduplicated w rng x) w"
proof -
  have "fold (\<lambda>rng. fold (validateCell rng) rng) ranges w =
     andValid (\<lambda>x. \<forall>rng\<in>set ranges. x \<in> set rng \<longrightarrow> unduplicated w rng x) w"
  proof (induction ranges arbitrary: w)
    case Nil
    show ?case by (simp add: andValid_def)
  next
    case (Cons r rs)
    have "fold (\<lambda>rng. fold (validateCell rng) rng) (r # rs) w =
        andValid (\<lambda>x. \<forall>rng\<in>set rs. x \<in> set rng \<longrightarrow>
            unduplicated (fold (validateCell r) r w) rng x) (fold (validateCell r) r w)"
      by (simp add: Cons.IH)
    also have "\<dots> = andValid (\<lambda>x. (x \<in> set r \<longrightarrow> unduplicated w r x) \<and>
        (\<forall>rng\<in>set rs. x \<in> set rng \<longrightarrow> unduplicated w rng x)) w"
      by (simp add: fold_validateCell andValid_andValid unduplicated_andValid)
    also have "\<dots> = andValid (\<lambda>x. \<forall>rng\<in>set (r # rs). x \<in> set rng \<longrightarrow>
        unduplicated w rng x) w"
      by (rule andValid_cong) auto
    finally show ?case .
  qed
  then show ?thesis by (simp add: validateRanges_def)
qed

lemma markValid_empty: "markValid {} w = w"
  by (simp add: markValid_def)

lemma markValid_markValid: "markValid S (markValid T w) = markValid (T \<union> S) w"
  by (auto simp add: markValid_def fun_eq_iff)

lemma modify_setIsValid_True: "modify c (setIsValid True) w = markValid {c} w"
  by (auto simp add: modify_def markValid_def setIsValid_def fun_eq_iff)

lemma fold_setIsValid:
  "fold (\<lambda>c. modify c (setIsValid True)) cs w = markValid (set cs) w"
proof (induction cs arbitrary: w)
  case Nil
  show ?case by (simp add: markValid_empty)
next
  case (Cons c cs)
  have "fold (\<lambda>c. modify c (setIsValid True)) (c # cs) w =
      markValid (set cs) (modify c (setIsValid True) w)"
    by (simp add: Cons.IH)
  also have "\<dots> = markValid (set (c # cs)) w"
    by (simp add: modify_setIsValid_True markValid_markValid)
  finally show ?case .
qed

lemma fold_fold_setIsValid:
  "fold (\<lambda>rw. fold (\<lambda>c. modify c (setIsValid True)) rw) css w = markValid (set (concat css)) w"
proof (induction css arbitrary: w)
  case Nil
  show ?case by (simp add: markValid_empty)
next
  case (Cons cs css)
  have "fold (\<lambda>rw. fold (\<lambda>c. modify c (setIsValid True)) rw) (cs # css) w =
      markValid (set (concat css)) (fold (\<lambda>c. modify c (setIsValid True)) cs w)"
    by (simp add: Cons.IH)
  also have "\<dots> = markValid (set (concat (cs # css))) w"
    by (simp add: fold_setIsValid markValid_markValid)
  finally show ?case .
qed

lemma unduplicated_markValid: "unduplicated (markValid S w) rng c = unduplicated w rng c"
  by (simp add: unduplicated_def isDuplicated_def markValid_def)

lemma validate_closed:
  "validate b w =
     andValid (\<lambda>x. \<forall>rng\<in>set (groups b). x \<in> set rng \<longrightarrow> unduplicated w rng x)
       (markValid (set (concat (cells b))) w)"
proof -
  let ?w0 = "markValid (set (concat (cells b))) w"
  have "validate b w =
      validateRanges (getSquares b) (validateRanges (getColumns b) (validateRanges (cells b) ?w0))"
    by (simp add: validate_def Let_def fold_fold_setIsValid)
  also have "\<dots> = andValid (\<lambda>x. ((\<forall>rng\<in>set (cells b). x \<in> set rng \<longrightarrow> unduplicated w rng x) \<and>
        (\<forall>rng\<in>set (getColumns b). x \<in> set rng \<longrightarrow> unduplicated w rng x)) \<and>
        (\<forall>rng\<in>set (getSquares b). x \<in> set rng \<longrightarrow> unduplicated w rng x)) ?w0"
    by (simp add: validateRanges_andValid andValid_andValid unduplicated_andValid
        unduplicated_markValid)
  also have "\<dots> = andValid (\<lambda>x. \<forall>rng\<in>set (groups b). x \<in> set rng \<longrightarrow> unduplicated w rng x) ?w0"
    by (rule andValid_cong) (auto simp add: groups_def)
  finally show ?thesis .
qed

lemma heap_validate:
  "heap (validate b w) c =
     (heap w c)\<lparr>valid := (c \<in> set (concat (cells b)) \<or> valid (heap w c)) \<and>
        (\<forall>rng\<in>set (groups b). c \<in> set rng \<longrightarrow> unduplicated w rng c)\<rparr>"
  by (simp add: validate_closed andValid_def markValid_def)

lemma validate_frame:
  "fresh (validate b w) = fresh w" "notifications (validate b w) = notifications w"
  by (simp_all add: validate_closed andValid_def markValid_def)

lemma gridAt_0:
  "gridAt 0 =
     [[0, 1, 2, 3, 4, 5, 6, 7, 8], [9, 10, 11, 12, 13, 14, 15, 16, 17],
      [18, 19, 20, 21, 22, 23, 24, 25, 26], [27, 28, 29, 30, 31, 32, 33, 34, 35],
      [36, 37, 38, 39, 40, 41, 42, 43, 44], [45, 46, 47, 48, 49, 50, 51, 52, 53],
      [54, 55, 56, 57, 58, 59, 60, 61, 62], [63, 64, 65, 66, 67, 68, 69, 70, 71],
      [72, 73, 74, 75, 76, 77, 78, 79, 80]]"
  by (simp add: gridAt_def upt_rec)

lemma twoFives_row_duplicate: "isDuplicated 0 (cells (boardAt 0) ! 0) twoFives"
  by (simp add: isDuplicated_def boardAt_def gridAt_0 twoFives_def worldOf_def setValue_def
      newCell_def)



text \<open>
  Claim C8. \<open>validate\<close> is idempotent: a second call in succession leaves the store, and
  so every validity flag, as the first call left it.
\<close>

theorem validate_idempotent: "validate b (validate b w) = validate b w"
proof (rule world.equality)
  show "heap (validate b (validate b w)) = heap (validate b w)"
  proof (rule ext)
    fix c
    have u: "unduplicated (validate b w) rng c = unduplicated w rng c" for rng
      by (simp add: validate_closed unduplicated_andValid unduplicated_markValid)
    let ?inb = "c \<in> set (concat (cells b))"
    let ?ok = "\<forall>rng\<in>set (groups b). c \<in> set rng \<longrightarrow> unduplicated w rng c"
    have "heap (validate b (validate b w)) c =
        (heap (validate b w) c)\<lparr>valid := (?inb \<or> valid (heap (validate b w) c)) \<and> ?ok\<rparr>"
      by (simp only: heap_validate [of b "validate b w"] u)
    also have "\<dots> = (heap w c)\<lparr>valid := (?inb \<or> (?inb \<or> valid (heap w c)) \<and> ?ok) \<and> ?ok\<rparr>"
      by (simp add: heap_validate)
    also have "((?inb \<or> (?inb \<or> valid (heap w c)) \<and> ?ok) \<and> ?ok) =
        ((?inb \<or> valid (heap w c)) \<and> ?ok)"
      by blast
    finally show "heap (validate b (validate b w)) c = heap (validate b w) c"
      by (simp add: heap_validate)
  qed
qed (simp_all add: validate_frame validate_closed andValid_def markValid_def)

text \<open>
  Claim C9. \<open>validate\<close> leaves the assigned value and the candidates of every cell as
  they were (and its coordinates): it writes validity flags only.
\<close>

theorem validate_keeps_values:
  "getValue (heap (validate b w) c) = getValue (heap w c) \<and>
   getPossibleValues (heap (validate b w) c) = getPossibleValues (heap w c) \<and>
   getRowIndex (heap (validate b w) c) = getRowIndex (heap w c) \<and>
   getColumnIndex (heap (validate b w) c) = getColumnIndex (heap w c)"
  by (simp add: heap_validate)

subsection \<open>Cloning\<close>

lemma allocRow_fst: "fst (allocRow r cs w) = [fresh w..<fresh w + length cs]"
proof (induction cs arbitrary: w)
  case Nil
  show ?case by simp
next
  case (Cons c cs)
  have "[fresh w..<fresh w + Suc (length cs)] =
      fresh w # [Suc (fresh w)..<fresh w + Suc (length cs)]"
    by (rule upt_conv_Cons) simp
  then show ?case
    by (simp add: split_beta Let_def Cons.IH alloc_def del: upt_Suc)
qed

lemma allocRow_fresh: "fresh (snd (allocRow r cs w)) = fresh w + length cs"
  by (induction cs arbitrary: w) (simp_all add: split_beta Let_def alloc_def)

lemma allocRow_notifications: "notifications (snd (allocRow r cs w)) = notifications w"
  by (induction cs arbitrary: w) (simp_all add: split_beta Let_def alloc_def)

lemma allocRow_heap:
  "heap (snd (allocRow r cs w)) a =
     (if fresh w \<le> a \<and> a < fresh w + length cs then newCell r (cs ! (a - fresh w))
      else heap w a)"
proof (induction cs arbitrary: w)
  case Nil
  show ?case by auto
next
  case (Cons c cs)
  show ?case
    by (auto simp add: split_beta Let_def Cons.IH alloc_def nth_Cons' Suc_diff_le)
qed

lemma allocField_fst:
  "fst (allocField rs w) =
     map (\<lambda>k. [fresh w + 9 * k..<fresh w + 9 * k + 9]) [0..<length rs]"
proof (induction rs arbitrary: w)
  case Nil
  show ?case by simp
next
  case (Cons r rs)
  show ?case
    by (simp add: split_beta Let_def Cons.IH allocRow_fst allocRow_fresh spec_length_def
        map_upt_Suc add.assoc del: upt_Suc)
qed

lemma allocField_fresh: "fresh (snd (allocField rs w)) = fresh w + 9 * length rs"
  by (induction rs arbitrary: w)
    (simp_all add: split_beta Let_def allocRow_fresh spec_length_def)

lemma allocField_notifications: "notifications (snd (allocField rs w)) = notifications w"
  by (induction rs arbitrary: w)
    (simp_all add: split_beta Let_def allocRow_notifications)

lemma allocField_heap:
  "heap (snd (allocField rs w)) a =
     (if fresh w \<le> a \<and> a < fresh w + 9 * length rs
      then newCell (rs ! ((a - fresh w) div 9)) ((a - fresh w) mod 9)
      else heap w a)"
proof (induction rs arbitrary: w)
  case Nil
  show ?case by auto
next
  case (Cons r rs)
  let ?w1 = "snd (allocRow r [0..<spec_length] w)"
  have step: "snd (allocField (r # rs) w) = snd (allocField rs ?w1)"
    by (simp add: split_beta Let_def)
  have f1: "fresh ?w1 = fresh w + 9"
    by (simp add: allocRow_fresh spec_length_def)
  have h1: "heap ?w1 a =
      (if fresh w \<le> a \<and> a < fresh w + 9 then newCell r (a - fresh w) else heap w a)"
  proof (cases "fresh w \<le> a \<and> a < fresh w + 9")
    case True
    then have "a - fresh w < 9" by auto
    then have "[0..<9] ! (a - fresh w) = a - fresh w"
      using nth_upt [of 0 "a - fresh w" 9] by simp
    with True show ?thesis by (simp add: allocRow_heap spec_length_def)
  next
    case False
    then show ?thesis by (auto simp add: allocRow_heap spec_length_def)
  qed
  have eq: "heap (snd (allocField (r # rs) w)) a =
      (if fresh w + 9 \<le> a \<and> a < fresh w + 9 + 9 * length rs
       then newCell (rs ! ((a - (fresh w + 9)) div 9)) ((a - (fresh w + 9)) mod 9)
       else heap ?w1 a)"
    by (simp only: step Cons.IH f1)
  show ?case
  proof (cases "fresh w \<le> a \<and> a < fresh w + 9")
    case True
    then have "(a - fresh w) div 9 = 0" "(a - fresh w) mod 9 = a - fresh w" "a - fresh w < 9"
      by auto
    with True show ?thesis
      by (simp add: eq h1 del: allocField.simps)
  next
    case False
    show ?thesis
    proof (cases "fresh w + 9 \<le> a")
      case True
      then have "(a - fresh w) div 9 = Suc ((a - (fresh w + 9)) div 9)"
        "(a - fresh w) mod 9 = (a - (fresh w + 9)) mod 9"
        by (simp_all add: le_div_geq le_mod_geq)
      with True False show ?thesis
        by (simp add: eq h1 del: allocField.simps)
    next
      case False
      with \<open>\<not> (fresh w \<le> a \<and> a < fresh w + 9)\<close> have "a < fresh w" by simp
      then show ?thesis
        by (simp add: eq h1 del: allocField.simps)
    qed
  qed
qed

lemma copyCell_copyTo: "copyCell field r = (\<lambda>ic. copyTo (field ! r ! fst ic, snd ic))"
  by (rule ext)+ (simp add: copyCell_def copyTo_def Let_def)

lemma fold_copyCell:
  "fold (\<lambda>ir. fold (copyCell field (fst ir)) (enumerate 0 (snd ir))) irs w =
     fold copyTo (concat (map (\<lambda>ir. map (\<lambda>ic. (field ! fst ir ! fst ic, snd ic))
       (enumerate 0 (snd ir))) irs)) w"
proof (induction irs arbitrary: w)
  case Nil
  show ?case by simp
next
  case (Cons ir irs)
  have "fold (copyCell field (fst ir)) (enumerate 0 (snd ir)) w =
      fold copyTo (map (\<lambda>ic. (field ! fst ir ! fst ic, snd ic)) (enumerate 0 (snd ir))) w"
    by (simp add: fold_map copyCell_copyTo comp_def)
  then show ?case by (simp add: Cons.IH)
qed




lemma copyTo_frame:
  "fresh (copyTo tc w) = fresh w" "notifications (copyTo tc w) = notifications w"
  "valid (heap (copyTo tc w) a) = valid (heap w a)"
  "getRowIndex (heap (copyTo tc w) a) = getRowIndex (heap w a)"
  "getColumnIndex (heap (copyTo tc w) a) = getColumnIndex (heap w a)"
  by (simp_all add: copyTo_def Let_def modify_def setValue_def setPossibleValues_def)

lemma fold_copyTo_frame:
  "fresh (fold copyTo ops w) = fresh w \<and> notifications (fold copyTo ops w) = notifications w \<and>
   valid (heap (fold copyTo ops w) a) = valid (heap w a) \<and>
   getRowIndex (heap (fold copyTo ops w) a) = getRowIndex (heap w a) \<and>
   getColumnIndex (heap (fold copyTo ops w) a) = getColumnIndex (heap w a)"
  by (induction ops arbitrary: w) (simp_all add: copyTo_frame)



lemma gridAt_nth: "r < 9 \<Longrightarrow> c < 9 \<Longrightarrow> gridAt n ! r ! c = n + 9 * r + c"
  by (simp add: gridAt_def)

lemma shape9_gridAt: "shape9 (gridAt n)"
  by (simp add: shape9_def gridAt_def list_all_iff)

lemma shape9_row: "shape9 css \<Longrightarrow> r < 9 \<Longrightarrow> length (css ! r) = 9"
  by (simp add: shape9_def list_all_length)

lemma concat_blocks:
  "concat (map (\<lambda>k. [n + 9 * k..<n + 9 * k + 9]) [0..<m]) = [n..<n + 9 * m]"
proof (induction m)
  case 0
  show ?case by simp
next
  case (Suc m)
  have "[n..<n + 9 * m] @ [n + 9 * m..<n + 9 * m + 9] = [n..<n + 9 * m + 9]"
    using upt_add_eq_append [of n "n + 9 * m" 9] by simp
  with Suc show ?case by (simp add: add.commute add.left_commute)
qed

lemma concat_gridAt: "concat (gridAt n) = [n..<n + 81]"
  using concat_blocks [of n 9] by (simp add: gridAt_def)

lemma emptyField_fst: "fst (emptyField w) = gridAt (fresh w)"
  by (simp add: emptyField_def allocField_fst gridAt_def spec_length_def)

lemma emptyField_fresh: "fresh (snd (emptyField w)) = fresh w + 81"
  by (simp add: emptyField_def allocField_fresh spec_length_def)

lemma emptyField_notifications: "notifications (snd (emptyField w)) = notifications w"
  by (simp add: emptyField_def allocField_notifications)

lemma emptyField_heap:
  "heap (snd (emptyField w)) a =
     (if fresh w \<le> a \<and> a < fresh w + 81
      then newCell ((a - fresh w) div 9) ((a - fresh w) mod 9)
      else heap w a)"
proof (cases "fresh w \<le> a \<and> a < fresh w + 81")
  case True
  then have "(a - fresh w) div 9 < 9" by auto
  then have "[0..<9] ! ((a - fresh w) div 9) = (a - fresh w) div 9"
    using nth_upt [of 0 "(a - fresh w) div 9" 9] by simp
  with True show ?thesis
    by (simp add: emptyField_def allocField_heap spec_length_def)
next
  case False
  then show ?thesis
    by (auto simp add: emptyField_def allocField_heap spec_length_def)
qed

lemma clone_unfold:
  "clone b w =
     (\<lparr>cells = gridAt (fresh w), timeoutMs = timeoutMs b\<rparr>,
      fold copyTo (pairs (gridAt (fresh w)) (cells b)) (snd (emptyField w)))"
  by (simp add: clone_def split_beta Let_def emptyField_fst fold_copyCell pairs_def)

lemma clone_cells: "cells (fst (clone b w)) = gridAt (fresh w)"
  by (simp add: clone_unfold)


lemma clone_fresh: "fresh (snd (clone b w)) = fresh w + 81"
  by (simp add: clone_unfold fold_copyTo_frame emptyField_fresh)

lemma clone_notifications: "notifications (snd (clone b w)) = notifications w"
  by (simp add: clone_unfold fold_copyTo_frame emptyField_notifications)

lemma clone_valid:
  "valid (heap (snd (clone b w)) a) =
     (if fresh w \<le> a \<and> a < fresh w + 81 then True else valid (heap w a))"
  by (simp add: clone_unfold fold_copyTo_frame emptyField_heap newCell_def)







lemma twoFives_flag: "\<not> valid (heap (validate (boardAt 0) twoFives) 0)"
proof -
  have "cells (boardAt 0) ! 0 \<in> set (groups (boardAt 0))"
    by (simp add: groups_def boardAt_def gridAt_0)
  moreover have "0 \<in> set (cells (boardAt 0) ! 0)"
    by (simp add: boardAt_def gridAt_0)
  moreover have "\<not> unduplicated twoFives (cells (boardAt 0) ! 0) 0"
    using twoFives_row_duplicate
    by (simp add: unduplicated_def twoFives_def worldOf_def setValue_def DEFAULT_CELL_VALUE_def)
  ultimately show ?thesis
    by (simp only: heap_validate) auto
qed

lemma twoFives_invalid: "\<not> isValid (boardAt 0) (validate (boardAt 0) twoFives)"
proof -
  have "0 \<in> set (concat (cells (boardAt 0)))"
    by (simp add: boardAt_def concat_gridAt)
  with twoFives_flag show ?thesis
    by (auto simp add: isValid_def filter_empty_conv)
qed

text \<open>
  Claim C10. Whatever the flags of the source are, every cell of the board that
  \<open>clone\<close> returns is flagged valid, so \<open>isValid\<close> holds of a fresh clone: the new
  cells are created valid and \<open>clone\<close> writes their values and candidates only.
\<close>

theorem clone_flags_true:
  "(\<forall>c\<in>set (concat (cells (fst (clone b w)))). valid (heap (snd (clone b w)) c)) \<and>
   isValid (fst (clone b w)) (snd (clone b w))"
proof -
  have "\<forall>c\<in>set (concat (cells (fst (clone b w)))). valid (heap (snd (clone b w)) c)"
    by (simp add: clone_cells concat_gridAt clone_valid)
  then show ?thesis
    by (simp add: isValid_def filter_empty_conv)
qed

theorem clone_flags_true_witness:
  "\<not> isValid (boardAt 0) (validate (boardAt 0) twoFives) \<and>
   isValid (fst (clone (boardAt 0) (validate (boardAt 0) twoFives)))
     (snd (clone (boardAt 0) (validate (boardAt 0) twoFives)))"
  using clone_flags_true [of "boardAt 0" "validate (boardAt 0) twoFives"] twoFives_invalid
  by simp



subsection \<open>Rollback\<close>

lemma set_slice: "set (slice xs i j) \<subseteq> set xs"
proof -
  have "set (take n (drop m xs)) \<subseteq> set xs" for n m
    using set_take_subset [of n "drop m xs"] set_drop_subset [of m xs] by blast
  then show ?thesis by (simp add: slice_def Let_def)
qed

lemma set_getSquare: "set (concat (getSquare b r c)) \<subseteq> set (concat (cells b))"
proof
  fix x assume "x \<in> set (concat (getSquare b r c))"
  then obtain rw where rw: "rw \<in> set (slice (cells b) (fst (getSquareIndexes r))
      (snd (getSquareIndexes r) + 1))"
    and x: "x \<in> set (slice rw (fst (getSquareIndexes c)) (snd (getSquareIndexes c) + 1))"
    by (auto simp add: getSquare_def Let_def)
  from rw have "rw \<in> set (cells b)" by (rule subsetD [OF set_slice])
  moreover from x have "x \<in> set rw" by (rule subsetD [OF set_slice])
  ultimately show "x \<in> set (concat (cells b))" by auto
qed

lemma set_getSquares: "set (concat (getSquares b)) \<subseteq> set (concat (cells b))"
  using set_getSquare [of b] by (simp add: getSquares_def)

lemma set_getColumns:
  assumes "shape9 (cells b)"
  shows "set (concat (getColumns b)) \<subseteq> set (concat (cells b))"
proof
  fix x assume "x \<in> set (concat (getColumns b))"
  then obtain i rw where i: "i < 9" and rw: "rw \<in> set (cells b)" and x: "x = rw ! i"
    by (auto simp add: getColumns_def spec_length_def)
  from assms rw have "length rw = 9"
    by (simp add: shape9_def list_all_iff)
  with i x have "x \<in> set rw" by simp
  with rw show "x \<in> set (concat (cells b))" by auto
qed

lemma set_groups:
  assumes "shape9 (cells b)"
  shows "set (concat (groups b)) = set (concat (cells b))"
  using set_getColumns [OF assms] set_getSquares [of b] by (auto simp add: groups_def)

lemma validate_untouched:
  assumes "a \<notin> set (concat (groups b))"
  shows "heap (validate b w) a = heap w a"
proof -
  from assms have "a \<notin> set (concat (cells b))" "\<forall>rng\<in>set (groups b). a \<notin> set rng"
    by (auto simp add: groups_def)
  then show ?thesis by (simp add: heap_validate)
qed

lemma restore_unfold:
  assumes "suggestions s \<noteq> []" and "\<not> isValid s (validate s w)"
  shows "restore s w =
     (s\<lparr>suggestions := butlast (suggestions s), cells := cells (snapshot (last (suggestions s)))\<rparr>,
      modify (getCell (snapshot (last (suggestions s))) (row (last (suggestions s)))
                (col (last (suggestions s))))
        (setPossibleValues (filter (\<lambda>v. v \<noteq> number (last (suggestions s)))
           (getPossibleValues (heap (validate s w)
              (getCell (snapshot (last (suggestions s))) (row (last (suggestions s)))
                (col (last (suggestions s))))))))
        (notify (Info RestoreField) (validate s w)))"
  using assms by (simp add: restore_def Let_def getCell_def notify_def)

text \<open>
  Claim C1. Let at least one suggestion be on the stack and let the board be invalid when
  \<open>solveAsPossible\<close> validates it at the end of a pass, the live grid and the snapshot
  being grids of nine rows of nine cells that share no cell and the suggestion's
  coordinates lying in the grid. Then the rollback pops the most recent suggestion, the
  live grid becomes the grid of its snapshot, and every cell of it is as it was in the
  snapshot, except that the cell at the suggestion's row and column has lost the
  suggested number from its candidates.
\<close>

theorem restore_rollback:
  assumes "suggestions s \<noteq> []" and "\<not> isValid s (validate s w)"
    and "shape9 (cells s)" and "shape9 (cells (snapshot (last (suggestions s))))"
    and "row (last (suggestions s)) < 9" and "col (last (suggestions s)) < 9"
    and "set (concat (cells (snapshot (last (suggestions s))))) \<inter> set (concat (cells s)) = {}"
  shows "suggestions (fst (restore s w)) = butlast (suggestions s) \<and>
    cells (fst (restore s w)) = cells (snapshot (last (suggestions s))) \<and>
    (\<forall>a\<in>set (concat (cells (fst (restore s w)))).
       heap (snd (restore s w)) a =
         (if a = getCell (fst (restore s w)) (row (last (suggestions s))) (col (last (suggestions s)))
          then (heap w a)\<lparr>getPossibleValues :=
                  filter (\<lambda>v. v \<noteq> number (last (suggestions s))) (getPossibleValues (heap w a))\<rparr>
          else heap w a)) \<and>
    getCell (fst (restore s w)) (row (last (suggestions s))) (col (last (suggestions s)))
      \<in> set (concat (cells (fst (restore s w)))) \<and>
    number (last (suggestions s)) \<notin> set (getPossibleValues (heap (snd (restore s w))
      (getCell (fst (restore s w)) (row (last (suggestions s))) (col (last (suggestions s))))))"
proof -
  let ?sg = "last (suggestions s)"
  let ?c = "getCell (snapshot ?sg) (row ?sg) (col ?sg)"
  have untouched: "heap (validate s w) a = heap w a"
    if "a \<in> set (concat (cells (snapshot ?sg)))" for a
  proof (rule validate_untouched)
    from that assms(7) have "a \<notin> set (concat (cells s))" by blast
    then show "a \<notin> set (concat (groups s))" unfolding set_groups [OF assms(3)] .
  qed
  have "row ?sg < length (cells (snapshot ?sg))"
    "col ?sg < length (cells (snapshot ?sg) ! row ?sg)"
    using assms(4,5,6) by (simp_all add: shape9_def list_all_length)
  then have "cells (snapshot ?sg) ! row ?sg \<in> set (cells (snapshot ?sg))"
    "?c \<in> set (cells (snapshot ?sg) ! row ?sg)"
    by (simp_all add: getCell_def)
  then have mem: "?c \<in> set (concat (cells (snapshot ?sg)))" by auto
  have cells': "cells (fst (restore s w)) = cells (snapshot ?sg)"
    by (simp add: restore_unfold [OF assms(1,2)])
  have c': "getCell (fst (restore s w)) (row ?sg) (col ?sg) = ?c"
    by (simp add: getCell_def cells')
  have heap': "heap (snd (restore s w)) a =
      (if a = ?c then (heap (validate s w) a)\<lparr>getPossibleValues :=
                  filter (\<lambda>v. v \<noteq> number ?sg) (getPossibleValues (heap (validate s w) a))\<rparr>
       else heap (validate s w) a)" for a
    by (simp add: restore_unfold [OF assms(1,2)] heap_modify setPossibleValues_def notify_def)
  have 1: "suggestions (fst (restore s w)) = butlast (suggestions s)"
    by (simp add: restore_unfold [OF assms(1,2)])
  have 3: "\<forall>a\<in>set (concat (cells (fst (restore s w)))).
       heap (snd (restore s w)) a =
         (if a = getCell (fst (restore s w)) (row ?sg) (col ?sg)
          then (heap w a)\<lparr>getPossibleValues :=
                  filter (\<lambda>v. v \<noteq> number ?sg) (getPossibleValues (heap w a))\<rparr>
          else heap w a)"
  proof
    fix a assume "a \<in> set (concat (cells (fst (restore s w))))"
    then have "a \<in> set (concat (cells (snapshot ?sg)))" by (simp only: cells')
    then have "heap (validate s w) a = heap w a" by (rule untouched)
    then show "heap (snd (restore s w)) a =
         (if a = getCell (fst (restore s w)) (row ?sg) (col ?sg)
          then (heap w a)\<lparr>getPossibleValues :=
                  filter (\<lambda>v. v \<noteq> number ?sg) (getPossibleValues (heap w a))\<rparr>
          else heap w a)"
      by (simp add: c' heap' untouched [OF mem])
  qed
  have 4: "getCell (fst (restore s w)) (row ?sg) (col ?sg) \<in> set (concat (cells (fst (restore s w))))"
    using mem by (simp only: cells' c')
  have 5: "number ?sg \<notin> set (getPossibleValues (heap (snd (restore s w))
      (getCell (fst (restore s w)) (row ?sg) (col ?sg))))"
    by (simp add: c' heap')
  from 1 cells' 3 4 5 show ?thesis by blast
qed

lemma duplicate_invalid:
  assumes "rng \<in> set (cells b)" and "c \<in> set rng" and "hasValue (heap w c)"
    and "isDuplicated c rng w"
  shows "\<not> isValid b (validate b w)"
proof -
  from assms(1) have "rng \<in> set (groups b)" by (simp add: groups_def)
  moreover from assms(3,4) have "\<not> unduplicated w rng c"
    by (simp add: unduplicated_def hasValue_def)
  ultimately have "\<not> valid (heap (validate b w) c)"
    using assms(2) by (simp only: heap_validate) auto
  moreover from assms(1,2) have "c \<in> set (concat (cells b))" by auto
  ultimately show ?thesis
    by (auto simp add: isValid_def filter_empty_conv)
qed

lemma afterGuess_invalid:
  "\<not> isValid (engineAt 0 [guessedFive]) (validate (engineAt 0 [guessedFive]) afterGuess)"
proof (rule duplicate_invalid)
  show "cells (boardAt 0) ! 0 \<in> set (cells (engineAt 0 [guessedFive]))"
    by (simp add: engineAt_def boardAt_def gridAt_0)
  show "0 \<in> set (cells (boardAt 0) ! 0)"
    by (simp add: boardAt_def gridAt_0)
  show "hasValue (heap afterGuess 0)"
    by (simp add: afterGuess_def twoFives_def worldOf_def hasValue_def setValue_def
        DEFAULT_CELL_VALUE_def)
  show "isDuplicated 0 (cells (boardAt 0) ! 0) afterGuess"
    by (simp add: isDuplicated_def boardAt_def gridAt_0 afterGuess_def twoFives_def worldOf_def
        setValue_def newCell_def)
qed

theorem restore_rollback_witness:
  "suggestions (engineAt 0 [guessedFive]) \<noteq> [] \<and>
   \<not> isValid (engineAt 0 [guessedFive]) (validate (engineAt 0 [guessedFive]) afterGuess) \<and>
   suggestions (fst (restore (engineAt 0 [guessedFive]) afterGuess)) = [] \<and>
   cells (fst (restore (engineAt 0 [guessedFive]) afterGuess)) = gridAt 81 \<and>
   getCell (fst (restore (engineAt 0 [guessedFive]) afterGuess)) 0 1 = 82 \<and>
   getPossibleValues (heap afterGuess 82) = [1, 2, 3, 4, 5, 6, 7, 8, 9] \<and>
   getPossibleValues (heap (snd (restore (engineAt 0 [guessedFive]) afterGuess)) 82) =
     [1, 2, 3, 4, 6, 7, 8, 9] \<and>
   heap (snd (restore (engineAt 0 [guessedFive]) afterGuess)) 81 = heap afterGuess 81"
proof -
  let ?s = "engineAt 0 [guessedFive]"
  have h1: "suggestions ?s \<noteq> []" by (simp add: engineAt_def)
  have h3: "shape9 (cells ?s)" by (simp add: engineAt_def shape9_gridAt)
  have h4: "shape9 (cells (snapshot (last (suggestions ?s))))"
    by (simp add: engineAt_def guessedFive_def boardAt_def shape9_gridAt)
  have h5: "row (last (suggestions ?s)) < 9" by (simp add: engineAt_def guessedFive_def)
  have h6: "col (last (suggestions ?s)) < 9" by (simp add: engineAt_def guessedFive_def)
  have h7: "set (concat (cells (snapshot (last (suggestions ?s))))) \<inter> set (concat (cells ?s)) = {}"
    by (simp add: engineAt_def guessedFive_def boardAt_def concat_gridAt)
  note r = restore_rollback [OF h1 afterGuess_invalid h3 h4 h5 h6 h7]
  have sg: "last (suggestions ?s) = guessedFive" by (simp add: engineAt_def)
  note r1 = r [THEN conjunct1]
  note r2 = r [THEN conjunct2, THEN conjunct1]
  note r3 = r [THEN conjunct2, THEN conjunct2, THEN conjunct1]
  have c1: "cells (fst (restore ?s afterGuess)) = gridAt 81"
    using r2 by (simp only: sg) (simp add: guessedFive_def boardAt_def)
  have c2: "getCell (fst (restore ?s afterGuess)) 0 1 = 82"
    by (simp add: getCell_def c1 gridAt_nth)
  have m: "81 \<in> set (concat (cells (fst (restore ?s afterGuess))))"
    "82 \<in> set (concat (cells (fst (restore ?s afterGuess))))"
    by (simp_all add: c1 concat_gridAt)
  have pv: "getPossibleValues (heap afterGuess 82) = [1, 2, 3, 4, 5, 6, 7, 8, 9]"
    by (simp add: afterGuess_def newCell_def)
  have rc: "row guessedFive = 0" "col guessedFive = 1" "number guessedFive = 5"
    by (simp_all add: guessedFive_def)
  from r3 have a: "\<forall>a\<in>set (concat (cells (fst (restore ?s afterGuess)))).
       heap (snd (restore ?s afterGuess)) a =
         (if a = 82
          then (heap afterGuess a)\<lparr>getPossibleValues :=
                  filter (\<lambda>v. v \<noteq> 5) (getPossibleValues (heap afterGuess a))\<rparr>
          else heap afterGuess a)"
    by (simp only: sg rc c2) 
  from bspec [OF a m(1)] have e81: "heap (snd (restore ?s afterGuess)) 81 = heap afterGuess 81"
    by simp
  from bspec [OF a m(2)] have e82: "getPossibleValues (heap (snd (restore ?s afterGuess)) 82) =
      [1, 2, 3, 4, 6, 7, 8, 9]"
    by (simp add: pv)
  from r1 have "suggestions (fst (restore ?s afterGuess)) = []"
    by (simp add: engineAt_def)
  with h1 afterGuess_invalid c1 c2 pv e81 e82 show ?thesis by simp
qed

subsection \<open>The guess\<close>



lemma reduce_fewer:
  "xs \<noteq> [] \<Longrightarrow> reduce (fewer w) xs = Some (pick w xs)"
  by (cases xs) (simp_all add: reduce_def pick_def)




lemma guess_undefined:
  assumes "unfilled s w \<noteq> []"
    and "getPossibleValues (heap w (pick w (unfilled s w))) = []"
  shows "guess s w = Inl UndefinedSuggestion"
proof -
  have "reduce (fewer w) (filter (\<lambda>c. \<not> hasValue (heap w c)) (concat (cells s))) =
      Some (pick w (unfilled s w))"
    using reduce_fewer [OF assms(1)] by (simp add: unfilled_def)
  then show ?thesis
    using assms(2) by (simp add: guess_def Let_def)
qed

lemma notify_frame:
  "heap (notify n w) = heap w" "fresh (notify n w) = fresh w"
  by (simp_all add: notify_def)












subsection \<open>Propagation\<close>
























subsection \<open>The run\<close>

lemma solve_invalid:
  assumes "\<not> isValid s (validate s w)"
  shows "solve strategies intersection (s, w) =
     Some (Inr (Pending (s\<lparr>running := True\<rparr>, notify (Error FieldNotValid) (validate s w))))"
proof -
  have "validate (s\<lparr>running := True\<rparr>) w = validate s w"
    by (simp add: validate_def getColumns_def getSquares_def getSquare_def)
  moreover have "isValid (s\<lparr>running := True\<rparr>) w' = isValid s w'" for w'
    by (simp add: isValid_def)
  ultimately show ?thesis
    using assms by (simp add: solve_def Let_def)
qed

lemma twoFives_invalid_engine:
  "\<not> isValid (engineAt 0 []) (validate (engineAt 0 []) twoFives)"
proof (rule duplicate_invalid)
  show "cells (boardAt 0) ! 0 \<in> set (cells (engineAt 0 []))"
    by (simp add: engineAt_def boardAt_def gridAt_0)
  show "0 \<in> set (cells (boardAt 0) ! 0)"
    by (simp add: boardAt_def gridAt_0)
  show "hasValue (heap twoFives 0)"
    by (simp add: twoFives_def worldOf_def hasValue_def setValue_def DEFAULT_CELL_VALUE_def)
  show "isDuplicated 0 (cells (boardAt 0) ! 0) twoFives"
    by (rule twoFives_row_duplicate)
qed

text \<open>
  Claim C2, at a board whose first row holds 5 in its first two cells. \<open>solve\<close> sets
  \<open>running\<close>, validates, reports the error and returns at once: no value and no
  candidate list has changed, but \<open>running\<close> is still true and the promise is never
  resolved, whereas the end of a run that passes the check sets \<open>running\<close> to false
  and resolves it. This holds whatever the strategies are.
\<close>

theorem solve_twoFives_stays_running:
  "solve strategies intersection (engineAt 0 [], twoFives) =
     Some (Inr (Pending ((engineAt 0 [])\<lparr>running := True\<rparr>,
       notify (Error FieldNotValid) (validate (engineAt 0 []) twoFives)))) \<and>
   running ((engineAt 0 [])\<lparr>running := True\<rparr>) \<and>
   notifications (notify (Error FieldNotValid) (validate (engineAt 0 []) twoFives)) =
     [Error FieldNotValid] \<and>
   getValue (heap (notify (Error FieldNotValid) (validate (engineAt 0 []) twoFives)) c) =
     getValue (heap twoFives c) \<and>
   getPossibleValues (heap (notify (Error FieldNotValid) (validate (engineAt 0 []) twoFives)) c) =
     getPossibleValues (heap twoFives c)"
proof -
  have "notifications twoFives = []" by (simp add: twoFives_def worldOf_def)
  then have "notifications (notify (Error FieldNotValid) (validate (engineAt 0 []) twoFives)) =
      [Error FieldNotValid]"
    by (simp add: notify_def validate_frame)
  then show ?thesis
    by (simp add: solve_invalid [OF twoFives_invalid_engine] notify_frame heap_validate)
qed

end
